theory Spec2Isabelle
  imports Complex_Main
begin

section \<open>KITTILoader: numeric model\<close>

text \<open>
  The loader computes with numpy and Python floats. A floating-point quantity is modelled
  as the real number it denotes. The functions \<open>angle2class\<close> and \<open>size2class\<close> take
  the arithmetic as a parameter: \<open>binary64\<close> rounds the result of every operation as
  IEEE 754 double precision does, which is the arithmetic the code runs on, and \<open>exact\<close>
  computes in the reals. Rounding changes what they return: a class index, a residual at
  the boundary of two bins, an equality that holds in the reals. The rotation and the
  augmentation are modelled in exact arithmetic, and so are the calls of the two
  functions inside \<open>__getitem__\<close>. Exceptions of Python and numpy are values of the type
  \<open>error\<close>, returned on the left of a sum.
\<close>

datatype error = IndexError | ValueError | ZeroDivisionError | AssertionError

text \<open>
  One row of an \<open>(N, C)\<close> point array whose first three channels are XYZ; the
  remaining \<open>C - 3\<close> channels are kept in \<open>extra\<close>.
\<close>

record point =
  px :: real
  py :: real
  pz :: real
  extra :: "real list"

type_synonym vec3 = "real \<times> real \<times> real"

type_synonym mat2 = "(real \<times> real) \<times> (real \<times> real)"

subsection \<open>Arithmetic\<close>

text \<open>Rounding to the nearest integer, a tie going to the even one.\<close>

definition round_half_even :: "real \<Rightarrow> int" where
  "round_half_even x =
     (let f = \<lfloor>x\<rfloor>; d = x - of_int f
      in if d < 1 / 2 then f else if 1 / 2 < d then f + 1 else if even f then f else f + 1)"

text \<open>
  The double nearest to a real, ties to even: a significand of 53 bits scaled by a power
  of two. The exponent is not bounded, so this is binary64 on the normal range
  (magnitudes from \<open>2 ^ -1022\<close> up to \<open>2 ^ 1024\<close>), which holds every value met here.
\<close>

definition fl64 :: "real \<Rightarrow> real" where
  "fl64 x =
     (if x = 0 then 0
      else let e = \<lfloor>log 2 \<bar>x\<bar>\<rfloor>; u = 2 powr (of_int e - 52)
           in of_int (round_half_even (x / u)) * u)"

text \<open>The double that \<open>np.pi\<close> is.\<close>

definition pi64 :: real where
  "pi64 = 884279719003555 / 2 ^ 48"

text \<open>
  An arithmetic: how the exact result of one operation is rounded, and the value of
  \<open>np.pi\<close>.
\<close>

record arith =
  fl :: "real \<Rightarrow> real"
  np_pi :: real

definition exact :: arith where
  "exact = \<lparr>fl = (\<lambda>x. x), np_pi = pi\<rparr>"

definition binary64 :: arith where
  "binary64 = \<lparr>fl = fl64, np_pi = pi64\<rparr>"

subsection \<open>Module constants\<close>

definition box_mean :: "real list" where
  "box_mean = [3.996132075471698908,
               1.617452830188679469,
               1.517264150943395506]"

definition imagenet_mean :: vec3 where
  "imagenet_mean = (0.485, 0.456, 0.406)"

definition imagenet_std :: vec3 where
  "imagenet_std = (0.229, 0.224, 0.225)"

subsection \<open>Python and numpy primitives\<close>

text \<open>Python's \<open>int(x)\<close> on a float: truncation toward zero.\<close>

definition py_int :: "real \<Rightarrow> int" where
  "py_int x = (if 0 \<le> x then \<lfloor>x\<rfloor> else \<lceil>x\<rceil>)"

text \<open>
  Python's and numpy's \<open>a % b\<close> on floats, for \<open>b\<close> non-zero: C's \<open>fmod\<close>, which is
  exact and has the sign of \<open>a\<close>, and then one addition of \<open>b\<close> when its sign differs
  from that of \<open>b\<close>.
\<close>

definition py_mod :: "arith \<Rightarrow> real \<Rightarrow> real \<Rightarrow> real" where
  "py_mod ar a b =
     (let m = a - b * of_int (py_int (a / b))
      in if m \<noteq> 0 \<and> ((b < 0) \<noteq> (m < 0)) then fl ar (m + b) else m)"

text \<open>The floored remainder, the value of \<open>a % b\<close> in exact arithmetic.\<close>

definition py_fmod :: "real \<Rightarrow> real \<Rightarrow> real" where
  "py_fmod a b = a - b * of_int \<lfloor>a / b\<rfloor>"

text \<open>
  Elementwise arithmetic of two one-dimensional arrays with numpy's broadcasting: equal
  lengths combine pointwise, a length-one operand is stretched, any other pair of shapes
  raises \<open>ValueError\<close>.
\<close>

definition np_broadcast :: "(real \<Rightarrow> real \<Rightarrow> real) \<Rightarrow> real list \<Rightarrow> real list \<Rightarrow> error + real list" where
  "np_broadcast f a b =
     (if length a = length b then Inr (map2 f a b)
      else if length a = 1 then Inr (map (f (hd a)) b)
      else if length b = 1 then Inr (map (\<lambda>x. f x (hd b)) a)
      else Inl ValueError)"

definition np_sub :: "arith \<Rightarrow> real list \<Rightarrow> real list \<Rightarrow> error + real list" where
  "np_sub ar = np_broadcast (\<lambda>x y. fl ar (x - y))"

definition np_add :: "arith \<Rightarrow> real list \<Rightarrow> real list \<Rightarrow> error + real list" where
  "np_add ar = np_broadcast (\<lambda>x y. fl ar (x + y))"

definition transpose2 :: "mat2 \<Rightarrow> mat2" where
  "transpose2 m = (case m of ((a, b), (c, d)) \<Rightarrow> ((a, c), (b, d)))"

text \<open>The product of a row vector with a 2x2 matrix, one row of \<open>np.dot\<close>.\<close>

definition dot_row :: "real \<times> real \<Rightarrow> mat2 \<Rightarrow> real \<times> real" where
  "dot_row v m = (case v of (x, z) \<Rightarrow> case m of ((a, b), (c, d)) \<Rightarrow>
                    (x * a + z * c, x * b + z * d))"

subsection \<open>rotate_pc_along_y\<close>

definition rotate_pc_along_y :: "point list \<Rightarrow> real \<Rightarrow> point list" where
  "rotate_pc_along_y pc rot_angle =
     (let cosval = cos rot_angle;
          sinval = sin rot_angle;
          rotmat = ((cosval, - sinval), (sinval, cosval))
      in map (\<lambda>p. case dot_row (px p, pz p) (transpose2 rotmat) of
                     (x', z') \<Rightarrow> p\<lparr>px := x', pz := z'\<rparr>) pc)"

subsection \<open>angle2class\<close>

definition angle2class :: "arith \<Rightarrow> real \<Rightarrow> int \<Rightarrow> error + (int \<times> real)" where
  "angle2class ar angle0 num_class =
     (let two_pi = fl ar (2 * np_pi ar);
          angle = py_mod ar angle0 two_pi in
      if \<not> (angle \<ge> 0 \<and> angle \<le> two_pi) then Inl AssertionError
      else if num_class = 0 then Inl ZeroDivisionError
      else
        let angle_per_class = fl ar (two_pi / fl ar (of_int num_class));
            shifted_angle =
              py_mod ar (fl ar (angle + fl ar (angle_per_class / 2))) two_pi;
            class_id = py_int (fl ar (shifted_angle / angle_per_class));
            residual_angle =
              fl ar (shifted_angle -
                fl ar (fl ar (fl ar (of_int class_id) * angle_per_class)
                        + fl ar (angle_per_class / 2)))
        in Inr (class_id, residual_angle))"

subsection \<open>size2class\<close>

text \<open>The list \<open>__box_mean\<close> as an array: each literal is the double nearest to it.\<close>

definition box_mean_array :: "arith \<Rightarrow> real list" where
  "box_mean_array ar = map (fl ar) box_mean"

definition size2class :: "arith \<Rightarrow> real list \<Rightarrow> error + real list" where
  "size2class ar sz = np_sub ar sz (box_mean_array ar)"

section \<open>myPointData\<close>

text \<open>
  The record stored in one \<open>.npy\<close> file, as \<open>point_loader\<close> returns it: a dictionary
  with these keys.
\<close>

record datas =
  img_id :: int
  frustum_angle :: real
  point_2d :: "point list"
  label :: "int list"
  point_velo :: "point list"
  velo_label :: "int list"
  box3d_center :: vec3
  box3d_size :: "real list"
  heading :: real

text \<open>
  The dataset object. \<open>points\<close> lists the files of the directory, each path paired with
  the record that loading it yields.
\<close>

record myPointData =
  points :: "(string \<times> datas) list"
  num_point :: nat
  num_angle :: int
  random_flip :: bool
  random_shift :: bool
  lidar :: bool

text \<open>
  The draws one call takes from numpy's generator: raw integers for
  \<open>np.random.choice\<close>, the value of \<open>np.random.random()\<close> and the value of
  \<open>np.random.randn()\<close>.
\<close>

record np_random =
  choice_raw :: "nat \<Rightarrow> nat"
  random_u :: real
  randn_g :: real

text \<open>What \<open>__getitem__\<close> returns, field by field in the order of the tuple.\<close>

record point_item =
  points_rot :: "point list"
  seg_mask :: "int list"
  box3d_center_rot :: vec3
  angle_c_rot :: int
  angle_r_rot :: real
  size_r :: "real list"
  rot_angle :: real
  item_img_id :: int
  item_name :: string

text \<open>Python list indexing: a negative index counts from the end.\<close>

definition py_index :: "'a list \<Rightarrow> int \<Rightarrow> error + 'a" where
  "py_index xs i =
     (if 0 \<le> i \<and> i < int (length xs) then Inr (xs ! nat i)
      else if - int (length xs) \<le> i \<and> i < 0 then Inr (xs ! nat (int (length xs) + i))
      else Inl IndexError)"

text \<open>
  \<open>np.random.choice(a, size, replace=True)\<close> for an integer \<open>a\<close>: \<open>size\<close> indices,
  each below \<open>a\<close>; an empty population raises unless no sample is taken.
\<close>

definition np_random_choice :: "(nat \<Rightarrow> nat) \<Rightarrow> nat \<Rightarrow> nat \<Rightarrow> error + nat list" where
  "np_random_choice raw a sz =
     (if a = 0 \<and> sz \<noteq> 0 then Inl ValueError
      else Inr (map (\<lambda>i. raw i mod a) [0..<sz]))"

text \<open>Indexing the first axis of an array with an array of indices.\<close>

definition np_take :: "'a list \<Rightarrow> nat list \<Rightarrow> error + 'a list" where
  "np_take xs idx =
     (if list_all (\<lambda>i. i < length xs) idx then Inr (map (\<lambda>i. xs ! i) idx)
      else Inl IndexError)"

definition np_clip :: "real \<Rightarrow> real \<Rightarrow> real \<Rightarrow> real" where
  "np_clip x a_min a_max = min (max x a_min) a_max"

definition expand_dims_row :: "vec3 \<Rightarrow> point list" where
  "expand_dims_row v = (case v of (x, y, z) \<Rightarrow> [\<lparr>px = x, py = y, pz = z, extra = []\<rparr>])"

text \<open>\<open>squeeze\<close> of a one-row array; the rotation keeps the single row.\<close>

definition squeeze_row :: "point list \<Rightarrow> vec3" where
  "squeeze_row pc = (px (hd pc), py (hd pc), pz (hd pc))"

definition last_segment :: "string \<Rightarrow> string" where
  "last_segment s = rev (takeWhile (\<lambda>c. c \<noteq> CHR ''/'') (rev s))"

text \<open>
  The flip of the augmentation, on the sampled points, the box centre and the heading;
  \<open>u\<close> is the value drawn by \<open>np.random.random()\<close>.
\<close>

definition random_flip_step ::
    "bool \<Rightarrow> real \<Rightarrow> point list \<times> vec3 \<times> real \<Rightarrow> point list \<times> vec3 \<times> real" where
  "random_flip_step flag u st =
     (case st of (pts, (cx, cy, cz), head) \<Rightarrow>
        if flag then
          (if u > 0.5
           then (map (\<lambda>p. p\<lparr>px := px p * (- 1)\<rparr>) pts, (cx * (- 1), cy, cz), pi - head)
           else st)
        else st)"

text \<open>
  The shift of the augmentation, on the points and the box centre; \<open>g\<close> is the value
  drawn by \<open>np.random.randn()\<close>.
\<close>

definition random_shift_step ::
    "bool \<Rightarrow> real \<Rightarrow> point list \<times> vec3 \<Rightarrow> point list \<times> vec3" where
  "random_shift_step flag g st =
     (case st of (pts, (cx, cy, cz)) \<Rightarrow>
        if flag then
          (let dist = sqrt (cx\<^sup>2 + cy\<^sup>2);
               shift = np_clip (g * dist * 0.05) (dist * 0.8) (dist * 1.2)
           in (map (\<lambda>p. p\<lparr>pz := pz p + shift\<rparr>) pts, (cx, cy, cz + shift)))
        else st)"

definition myPointData_getitem :: "myPointData \<Rightarrow> np_random \<Rightarrow> int \<Rightarrow> error + point_item" where
  "myPointData_getitem self rnd index =
     (case py_index (points self) index of
        Inl e \<Rightarrow> Inl e
      | Inr (point, datas) \<Rightarrow>
     (let rot = pi / 2 + frustum_angle datas;
          pts0 = (if lidar self then point_velo datas else point_2d datas);
          seg0 = (if lidar self then velo_label datas else label datas)
      in case np_random_choice (choice_raw rnd) (length pts0) (num_point self) of
        Inl e \<Rightarrow> Inl e
      | Inr choice \<Rightarrow>
     (case np_take pts0 choice of
        Inl e \<Rightarrow> Inl e
      | Inr pts1 \<Rightarrow>
     (case np_take seg0 choice of
        Inl e \<Rightarrow> Inl e
      | Inr seg1 \<Rightarrow>
     (case random_flip_step (random_flip self) (random_u rnd)
             (pts1, box3d_center datas, heading datas) of
        (pts2, center2, head) \<Rightarrow>
     (case random_shift_step (random_shift self) (randn_g rnd) (pts2, center2) of
        (pts3, center3) \<Rightarrow>
     (case size2class exact (box3d_size datas) of
        Inl e \<Rightarrow> Inl e
      | Inr sr \<Rightarrow>
     (case angle2class exact (head - rot) (num_angle self) of
        Inl e \<Rightarrow> Inl e
      | Inr (angle_c, angle_r) \<Rightarrow>
          Inr \<lparr>points_rot = rotate_pc_along_y pts3 rot,
               seg_mask = seg1,
               box3d_center_rot = squeeze_row (rotate_pc_along_y (expand_dims_row center3) rot),
               angle_c_rot = angle_c,
               angle_r_rot = angle_r,
               size_r = sr,
               rot_angle = rot,
               item_img_id = img_id datas,
               item_name = last_segment point\<rparr>))))))))"

definition myPointData_len :: "myPointData \<Rightarrow> nat" where
  "myPointData_len self = length (points self)"

section \<open>myImageFloder\<close>

text \<open>
  A raster of the imaging library or a two-dimensional array: its width, its height and
  the value at column \<open>x\<close> and row \<open>y\<close>. Stored images have non-negative sizes.
\<close>

record 'a image =
  im_w :: int
  im_h :: int
  im_px :: "int \<Rightarrow> int \<Rightarrow> 'a"

type_synonym rgb = "nat \<times> nat \<times> nat"

text \<open>
  \<open>Image.crop((left, upper, right, lower))\<close>: the result has the size of the box, and
  the part of the box outside the image is filled with \<open>fill\<close> (zero in every band).
\<close>

definition crop :: "'a \<Rightarrow> 'a image \<Rightarrow> int \<times> int \<times> int \<times> int \<Rightarrow> 'a image" where
  "crop fill im box =
     (case box of (l, u, r, b) \<Rightarrow>
        \<lparr>im_w = r - l, im_h = b - u,
         im_px = (\<lambda>x y. if 0 \<le> x + l \<and> x + l < im_w im \<and> 0 \<le> y + u \<and> y + u < im_h im
                         then im_px im (x + l) (y + u) else fill)\<rparr>)"

text \<open>\<open>np.ascontiguousarray(dataL, dtype=np.float32) / 256\<close>.\<close>

definition to_array_div256 :: "nat image \<Rightarrow> real image" where
  "to_array_div256 im =
     \<lparr>im_w = im_w im, im_h = im_h im, im_px = (\<lambda>x y. real (im_px im x y) / 256)\<rparr>"

text \<open>
  The slice \<open>a[ya:yb, xa:xb]\<close> of a two-dimensional array for bounds that are not
  negative (the only ones \<open>__getitem__\<close> produces): numpy clamps each bound to the
  extent of the axis.
\<close>

definition np_slice :: "'a image \<Rightarrow> int \<Rightarrow> int \<Rightarrow> int \<Rightarrow> int \<Rightarrow> 'a image" where
  "np_slice a ya yb xa xb =
     (let ys = min ya (im_h a); ye = min yb (im_h a);
          xs = min xa (im_w a); xe = min xb (im_w a)
      in \<lparr>im_w = max 0 (xe - xs), im_h = max 0 (ye - ys),
          im_px = (\<lambda>x y. im_px a (x + xs) (y + ys))\<rparr>)"

text \<open>\<open>transforms.ToTensor()\<close> followed by \<open>transforms.Normalize\<close> with the ImageNet statistics.\<close>

definition to_tensor :: "rgb image \<Rightarrow> vec3 image" where
  "to_tensor im =
     \<lparr>im_w = im_w im, im_h = im_h im,
      im_px = (\<lambda>x y. case im_px im x y of (r, g, b) \<Rightarrow> (real r / 255, real g / 255, real b / 255))\<rparr>"

definition normalize :: "vec3 \<Rightarrow> vec3 \<Rightarrow> vec3 image \<Rightarrow> vec3 image" where
  "normalize mean std t =
     (case mean of (m0, m1, m2) \<Rightarrow> case std of (s0, s1, s2) \<Rightarrow>
        \<lparr>im_w = im_w t, im_h = im_h t,
         im_px = (\<lambda>x y. case im_px t x y of (r, g, b) \<Rightarrow>
                    ((r - m0) / s0, (g - m1) / s1, (b - m2) / s2))\<rparr>)"

definition get_transform :: "rgb image \<Rightarrow> vec3 image" where
  "get_transform im = normalize imagenet_mean imagenet_std (to_tensor im)"

text \<open>\<open>random.randint(a, b)\<close>: an integer of \<open>[a, b]\<close>, and \<open>ValueError\<close> on an empty range.\<close>

definition randint :: "nat \<Rightarrow> int \<Rightarrow> int \<Rightarrow> error + int" where
  "randint raw a b = (if b < a then Inl ValueError else Inr (a + int raw mod (b - a + 1)))"

text \<open>
  The dataset object: the lists of paths stand for the rasters their loaders return.
\<close>

record myImageFloder =
  left :: "rgb image list"
  right :: "rgb image list"
  disp_L :: "nat image list"
  training :: bool
  name :: "string list"
  load :: bool

text \<open>The third component of the result: the disparity array, or the integer 0.\<close>

datatype disparity = DispArray "real image" | DispZero

text \<open>The tuple returned in training mode (four components) and otherwise (six).\<close>

datatype stereo_item =
    TrainItem "vec3 image" "vec3 image" disparity string
  | EvalItem "vec3 image" "vec3 image" disparity string int int

definition myImageFloder_getitem :: "myImageFloder \<Rightarrow> nat \<times> nat \<Rightarrow> int \<Rightarrow> error + stereo_item" where
  "myImageFloder_getitem self rnd index =
     (case py_index (left self) index of
        Inl e \<Rightarrow> Inl e
      | Inr left_img \<Rightarrow>
     (case py_index (right self) index of
        Inl e \<Rightarrow> Inl e
      | Inr right_img \<Rightarrow>
     (case py_index (name self) index of
        Inl e \<Rightarrow> Inl e
      | Inr nm \<Rightarrow>
     (case (if \<not> load self then map_sum id Some (py_index (disp_L self) index) else Inr None) of
        Inl e \<Rightarrow> Inl e
      | Inr dataL \<Rightarrow>
     (if training self then
        (let w = im_w left_img; h = im_h left_img; th = 256; tw = 512
         in case randint (fst rnd) 0 (w - tw) of
              Inl e \<Rightarrow> Inl e
            | Inr x1 \<Rightarrow>
           (case randint (snd rnd) 0 (h - th) of
              Inl e \<Rightarrow> Inl e
            | Inr y1 \<Rightarrow>
                Inr (TrainItem
                  (get_transform (crop (0, 0, 0) left_img (x1, y1, x1 + tw, y1 + th)))
                  (get_transform (crop (0, 0, 0) right_img (x1, y1, x1 + tw, y1 + th)))
                  (case dataL of
                     Some d \<Rightarrow> DispArray (np_slice (to_array_div256 d) y1 (y1 + th) x1 (x1 + tw))
                   | None \<Rightarrow> DispZero)
                  nm)))
      else
        (let w = im_w left_img; h = im_h left_img;
             left_c = crop (0, 0, 0) left_img (w - 1232, h - 368, w, h);
             right_c = crop (0, 0, 0) right_img (w - 1232, h - 368, w, h);
             w1 = im_w left_c; h1 = im_h left_c
         in Inr (EvalItem
              (get_transform left_c)
              (get_transform right_c)
              (case dataL of
                 Some d \<Rightarrow> DispArray (to_array_div256 (crop 0 d (w - 1232, h - 368, w, h)))
               | None \<Rightarrow> DispZero)
              nm w h)))))))"

definition myImageFloder_len :: "myImageFloder \<Rightarrow> nat" where
  "myImageFloder_len self = length (left self)"

section \<open>Reading the returned tuples\<close>

text \<open>Projections of the tuple that \<open>myImageFloder.__getitem__\<close> returns, and the size of a raster.\<close>

definition item_trailing :: "stereo_item \<Rightarrow> (int \<times> int) option" where
  "item_trailing it = (case it of TrainItem l r d n \<Rightarrow> None | EvalItem l r d n w h \<Rightarrow> Some (w, h))"

definition item_left :: "stereo_item \<Rightarrow> vec3 image" where
  "item_left it = (case it of TrainItem l r d n \<Rightarrow> l | EvalItem l r d n w h \<Rightarrow> l)"

definition item_right :: "stereo_item \<Rightarrow> vec3 image" where
  "item_right it = (case it of TrainItem l r d n \<Rightarrow> r | EvalItem l r d n w h \<Rightarrow> r)"

definition item_disp :: "stereo_item \<Rightarrow> disparity" where
  "item_disp it = (case it of TrainItem l r d n \<Rightarrow> d | EvalItem l r d n w h \<Rightarrow> d)"

definition image_size :: "'a image \<Rightarrow> int \<times> int" where
  "image_size im = (im_w im, im_h im)"

definition disparity_size :: "disparity \<Rightarrow> (int \<times> int) option" where
  "disparity_size d = (case d of DispArray a \<Rightarrow> Some (image_size a) | DispZero \<Rightarrow> None)"

section \<open>Example inputs\<close>

text \<open>Stored records, datasets and random draws on which the theorems are evaluated.\<close>

definition empty_cloud :: datas where
  "empty_cloud = \<lparr>img_id = 0, frustum_angle = 0, point_2d = [], label = [],
     point_velo = [], velo_label = [], box3d_center = (0, 0, 10),
     box3d_size = [4, 2, 2], heading = 0\<rparr>"

definition empty_cloud_data :: myPointData where
  "empty_cloud_data = \<lparr>points = [(''frustums/000000.npy'', empty_cloud)], num_point = 16,
     num_angle = 12, random_flip = False, random_shift = False, lidar = False\<rparr>"

definition two_point_cloud :: datas where
  "two_point_cloud = \<lparr>img_id = 7, frustum_angle = 0,
     point_2d = [\<lparr>px = 1, py = 2, pz = 3, extra = [9]\<rparr>, \<lparr>px = 4, py = 5, pz = 6, extra = [8]\<rparr>],
     label = [0, 1], point_velo = [], velo_label = [], box3d_center = (3, 4, 10),
     box3d_size = [4, 2, 2], heading = 1\<rparr>"

definition two_point_data :: myPointData where
  "two_point_data = \<lparr>points = [(''frustums/000007.npy'', two_point_cloud)], num_point = 3,
     num_angle = 12, random_flip = True, random_shift = True, lidar = False\<rparr>"

definition fixed_draws :: np_random where
  "fixed_draws = \<lparr>choice_raw = Suc, random_u = 0.7, randn_g = 0.3\<rparr>"

definition black_image :: "int \<Rightarrow> int \<Rightarrow> rgb image" where
  "black_image w h = \<lparr>im_w = w, im_h = h, im_px = (\<lambda>x y. (0, 0, 0))\<rparr>"

definition flat_disparity :: "int \<Rightarrow> int \<Rightarrow> nat image" where
  "flat_disparity w h = \<lparr>im_w = w, im_h = h, im_px = (\<lambda>x y. 512)\<rparr>"

definition kitti_eval_data :: myImageFloder where
  "kitti_eval_data = \<lparr>left = [black_image 1242 375], right = [black_image 1242 375],
     disp_L = [flat_disparity 1242 375], training = False, name = [''000000_10.png''], load = False\<rparr>"

definition kitti_train_data :: myImageFloder where
  "kitti_train_data = \<lparr>left = [black_image 1242 375], right = [black_image 1242 375],
     disp_L = [flat_disparity 1242 375], training = True, name = [''000000_10.png''], load = False\<rparr>"

section \<open>Properties of the numeric helpers\<close>

lemma py_fmod_range:
  assumes "0 < b"
  shows "0 \<le> py_fmod a b" and "py_fmod a b < b"
proof -
  from assms have "of_int \<lfloor>a / b\<rfloor> * b \<le> a" by (rule floor_divide_lower)
  then show "0 \<le> py_fmod a b" by (simp add: py_fmod_def mult.commute)
  from assms have "a < (of_int \<lfloor>a / b\<rfloor> + 1) * b" by (rule floor_divide_upper)
  then show "py_fmod a b < b" by (simp add: py_fmod_def algebra_simps)
qed

lemma py_fmod_id:
  assumes "0 \<le> a" and "a < b"
  shows "py_fmod a b = a"
proof -
  from assms have "0 < b" by simp
  with assms have "0 \<le> a / b" and "a / b < 1" by simp_all
  then have "\<lfloor>a / b\<rfloor> = 0" by linarith
  then show ?thesis by (simp add: py_fmod_def)
qed

lemma py_mod_exact:
  assumes "0 < b"
  shows "py_mod exact a b = py_fmod a b"
proof (cases "0 \<le> a / b")
  case True
  then have t: "py_int (a / b) = \<lfloor>a / b\<rfloor>" by (simp add: py_int_def)
  have "0 \<le> py_fmod a b" using py_fmod_range(1) [OF assms] .
  then have "\<not> (a - b * of_int \<lfloor>a / b\<rfloor> < 0)" by (simp add: py_fmod_def)
  then show ?thesis using assms by (simp add: py_mod_def t py_fmod_def Let_def)
next
  case False
  then have t: "py_int (a / b) = \<lceil>a / b\<rceil>" by (simp add: py_int_def)
  show ?thesis
  proof (cases "of_int \<lfloor>a / b\<rfloor> = a / b")
    case True
    then have c: "\<lceil>a / b\<rceil> = \<lfloor>a / b\<rfloor>" by (metis ceiling_of_int)
    have "b * of_int \<lfloor>a / b\<rfloor> = b * (a / b)" by (simp only: True)
    also have "\<dots> = a" using assms by simp
    finally have "b * of_int \<lfloor>a / b\<rfloor> = a" .
    then show ?thesis by (simp add: py_mod_def t c py_fmod_def Let_def)
  next
    case False
    then have c: "\<lceil>a / b\<rceil> = \<lfloor>a / b\<rfloor> + 1" by (simp add: ceiling_altdef)
    have lt: "py_fmod a b < b" using py_fmod_range(2) [OF assms] .
    then have neg: "a - b * of_int (\<lfloor>a / b\<rfloor> + 1) < 0"
      by (simp add: py_fmod_def algebra_simps)
    then have "a - b * of_int (\<lfloor>a / b\<rfloor> + 1) \<noteq> 0" by simp
    with neg assms show ?thesis
      by (simp add: py_mod_def t c py_fmod_def Let_def exact_def algebra_simps)
  qed
qed

lemma angle2class_unfold:
  fixes a :: real
  assumes N: "1 \<le> N"
  defines "apc \<equiv> 2 * pi / of_int N"
  defines "s \<equiv> py_fmod (py_fmod a (2 * pi) + apc / 2) (2 * pi)"
  shows "angle2class exact a N =
           Inr (\<lfloor>s / apc\<rfloor>, s - (of_int \<lfloor>s / apc\<rfloor> * apc + apc / 2))"
proof -
  have tp: "0 < 2 * pi" by simp
  have r1: "0 \<le> py_fmod a (2 * pi)" and r2: "py_fmod a (2 * pi) < 2 * pi"
    using py_fmod_range [OF tp] by blast+
  have apc_pos: "0 < apc" using N by (simp add: apc_def)
  have s0: "0 \<le> s" unfolding s_def using py_fmod_range(1) [OF tp] by blast
  then have "0 \<le> s / apc" using apc_pos by simp
  then have trunc: "py_int (s / apc) = \<lfloor>s / apc\<rfloor>" by (simp add: py_int_def)
  from N have N0: "N \<noteq> 0" by simp
  have ex: "fl exact = (\<lambda>x. x)" "np_pi exact = pi" by (simp_all add: exact_def)
  show ?thesis
    using r1 r2 N0 trunc
    unfolding angle2class_def Let_def ex py_mod_exact [OF tp] apc_def s_def by simp
qed

lemma angle2class_class_range:
  assumes N: "1 \<le> N"
  defines "apc \<equiv> 2 * pi / of_int N"
  assumes s0: "0 \<le> s" and s1: "s < 2 * pi"
  shows "0 \<le> \<lfloor>s / apc\<rfloor>" and "\<lfloor>s / apc\<rfloor> < N"
proof -
  have apc_pos: "0 < apc" using N by (simp add: apc_def)
  have "0 \<le> s / apc" using s0 apc_pos by simp
  then show "0 \<le> \<lfloor>s / apc\<rfloor>" by simp
  have "apc * of_int N = 2 * pi" using N by (simp add: apc_def)
  then have "s < of_int N * apc" using s1 by (simp add: mult.commute)
  then have "s / apc < of_int N" using apc_pos by (simp add: pos_divide_less_eq)
  then show "\<lfloor>s / apc\<rfloor> < N" by (simp add: floor_less_iff)
qed

lemma frac_bin_bounds:
  assumes "0 < (w::real)"
  shows "- (w / 2) \<le> s - (of_int \<lfloor>s / w\<rfloor> * w + w / 2)"
    and "s - (of_int \<lfloor>s / w\<rfloor> * w + w / 2) < w / 2"
proof -
  from assms have "of_int \<lfloor>s / w\<rfloor> * w \<le> s" by (rule floor_divide_lower)
  then show "- (w / 2) \<le> s - (of_int \<lfloor>s / w\<rfloor> * w + w / 2)" by simp
  from assms have "s < (of_int \<lfloor>s / w\<rfloor> + 1) * w" by (rule floor_divide_upper)
  then show "s - (of_int \<lfloor>s / w\<rfloor> * w + w / 2) < w / 2" by (simp add: algebra_simps)
qed

lemma rot_sq:
  fixes x z c s :: real
  assumes "s\<^sup>2 + c\<^sup>2 = 1"
  shows "(x * c + z * - s)\<^sup>2 + (x * s + z * c)\<^sup>2 = x\<^sup>2 + z\<^sup>2"
proof -
  have "(x * c + z * - s)\<^sup>2 + (x * s + z * c)\<^sup>2 = (x\<^sup>2 + z\<^sup>2) * (s\<^sup>2 + c\<^sup>2)"
    by (simp add: power2_eq_square algebra_simps)
  then show ?thesis by (simp only: assms mult_1_right)
qed

lemma rot_back_x:
  fixes x z c s :: real
  assumes "s\<^sup>2 + c\<^sup>2 = 1"
  shows "(x * c + z * - s) * c + (x * s + z * c) * - (- s) = x"
proof -
  have "(x * c + z * - s) * c + (x * s + z * c) * - (- s) = x * (s\<^sup>2 + c\<^sup>2)"
    by (simp add: power2_eq_square algebra_simps)
  then show ?thesis by (simp only: assms mult_1_right)
qed

lemma rot_back_z:
  fixes x z c s :: real
  assumes "s\<^sup>2 + c\<^sup>2 = 1"
  shows "(x * c + z * - s) * - s + (x * s + z * c) * c = z"
proof -
  have "(x * c + z * - s) * - s + (x * s + z * c) * c = z * (s\<^sup>2 + c\<^sup>2)"
    by (simp add: power2_eq_square algebra_simps)
  then show ?thesis by (simp only: assms mult_1_right)
qed

lemma rotate_pc_along_y_unfold:
  "rotate_pc_along_y pc t =
     map (\<lambda>p. p\<lparr>px := px p * cos t + pz p * - sin t, pz := px p * sin t + pz p * cos t\<rparr>) pc"
  by (simp add: rotate_pc_along_y_def dot_row_def transpose2_def Let_def)

lemma rotate_pc_along_y_length: "length (rotate_pc_along_y pc t) = length pc"
  by (simp add: rotate_pc_along_y_unfold)

section \<open>Evaluating and bounding binary64 rounding\<close>

lemma round_half_even_near:
  assumes "\<bar>x - of_int k\<bar> < 1 / 2"
  shows "round_half_even x = k"
proof (cases "of_int k \<le> x")
  case True
  with assms have "x < of_int k + 1" by linarith
  with True have f: "\<lfloor>x\<rfloor> = k" by linarith
  from True assms have "x - of_int k < 1 / 2" by linarith
  then show ?thesis by (simp add: round_half_even_def f Let_def)
next
  case False
  have lo: "of_int (k - 1) \<le> x" using False assms by simp
  have hi: "x < of_int (k - 1) + 1" using False by simp
  from lo hi have f: "\<lfloor>x\<rfloor> = k - 1" by linarith
  have "1 / 2 < x - of_int (k - 1)" using False assms by simp
  then show ?thesis by (simp add: round_half_even_def f Let_def)
qed

lemma round_half_even_tie:
  assumes "x = of_int k - 1 / 2" and "even k"
  shows "round_half_even x = k"
proof -
  have lo: "of_int (k - 1) \<le> x" and hi: "x < of_int (k - 1) + 1"
    using assms(1) by simp_all
  then have f: "\<lfloor>x\<rfloor> = k - 1" by linarith
  have d: "x - of_int (k - 1) = 1 / 2" using assms(1) by simp
  show ?thesis using assms(2) d by (simp add: round_half_even_def f Let_def)
qed

lemma fl64_rounded:
  fixes n :: nat
  assumes lo: "2 ^ 52 \<le> \<bar>x\<bar> * 2 ^ n" and hi: "\<bar>x\<bar> * 2 ^ n < 2 ^ 53"
    and r: "round_half_even (x * 2 ^ n) = k"
  shows "fl64 x = of_int k / 2 ^ n"
proof -
  have x0: "x \<noteq> 0" using lo by auto
  then have ax: "0 < \<bar>x\<bar>" by simp
  have p: "(2::real) powr (- real n) = 1 / 2 ^ n"
    by (simp add: powr_minus powr_realpow inverse_eq_divide)
  have e1: "(2::real) powr of_int (52 - int n) = 2 ^ 52 / 2 ^ n"
  proof -
    have "(2::real) powr of_int (52 - int n) = 2 powr (real 52 - real n)" by simp
    also have "\<dots> = 2 powr real 52 / 2 powr real n" by (rule powr_diff)
    also have "\<dots> = 2 ^ 52 / 2 ^ n" by (simp only: powr_realpow zero_less_numeral)
    finally show ?thesis .
  qed
  have e2: "(2::real) powr of_int (52 - int n + 1) = 2 ^ 53 / 2 ^ n"
  proof -
    have "(2::real) powr of_int (52 - int n + 1) = 2 powr (real 53 - real n)" by simp
    also have "\<dots> = 2 powr real 53 / 2 powr real n" by (rule powr_diff)
    also have "\<dots> = 2 ^ 53 / 2 ^ n" by (simp only: powr_realpow zero_less_numeral)
    finally show ?thesis .
  qed
  have "2 powr of_int (52 - int n) \<le> \<bar>x\<bar> \<and> \<bar>x\<bar> < 2 powr of_int (52 - int n + 1)"
    unfolding e1 e2 using lo hi by (simp add: field_simps)
  then have e: "\<lfloor>log 2 \<bar>x\<bar>\<rfloor> = 52 - int n"
    using ax by (simp add: floor_log_eq_powr_iff)
  have u: "(2::real) powr (of_int (52 - int n) - 52) = 1 / 2 ^ n"
    using p by simp
  show ?thesis
    using x0 by (simp add: fl64_def e Let_def u r del: of_int_diff)
qed

lemma fl64_eval:
  fixes n :: nat
  assumes "2 ^ 52 \<le> \<bar>x\<bar> * 2 ^ n" and "\<bar>x\<bar> * 2 ^ n < 2 ^ 53"
    and "\<bar>x * 2 ^ n - of_int k\<bar> < 1 / 2"
  shows "fl64 x = of_int k / 2 ^ n"
  using fl64_rounded [OF assms(1,2) round_half_even_near [OF assms(3)]] .

lemma fl64_eval_tie:
  fixes n :: nat
  assumes "2 ^ 52 \<le> \<bar>x\<bar> * 2 ^ n" and "\<bar>x\<bar> * 2 ^ n < 2 ^ 53"
    and "x * 2 ^ n = of_int k - 1 / 2" and "even k"
  shows "fl64 x = of_int k / 2 ^ n"
  using fl64_rounded [OF assms(1,2) round_half_even_tie [OF assms(3,4)]] .

lemma round_half_even_tie_above:
  assumes "x = of_int k + 1 / 2" and "even k"
  shows "round_half_even x = k"
proof -
  have "of_int k \<le> x" and "x < of_int k + 1" using assms(1) by simp_all
  then have f: "\<lfloor>x\<rfloor> = k" by linarith
  show ?thesis using assms by (simp add: round_half_even_def f Let_def)
qed

lemma fl64_eval_tie_above:
  fixes n :: nat
  assumes "2 ^ 52 \<le> \<bar>x\<bar> * 2 ^ n" and "\<bar>x\<bar> * 2 ^ n < 2 ^ 53"
    and "x * 2 ^ n = of_int k + 1 / 2" and "even k"
  shows "fl64 x = of_int k / 2 ^ n"
  using fl64_rounded [OF assms(1,2) round_half_even_tie_above [OF assms(3,4)]] .

lemma round_half_even_ge_floor: "\<lfloor>x\<rfloor> \<le> round_half_even x"
  by (simp add: round_half_even_def Let_def)

lemma round_half_even_le_int:
  assumes "x \<le> of_int M"
  shows "round_half_even x \<le> M"
proof (cases "\<lfloor>x\<rfloor> = M")
  case True
  then have "of_int M \<le> x" by (metis of_int_floor_le)
  with assms have "x = of_int M" by simp
  then show ?thesis by (simp add: round_half_even_def Let_def)
next
  case False
  from assms have "\<lfloor>x\<rfloor> \<le> M" by (simp add: floor_le_iff)
  with False have "\<lfloor>x\<rfloor> + 1 \<le> M" by simp
  then show ?thesis by (auto simp: round_half_even_def Let_def)
qed

lemma fl64_nonneg:
  assumes "0 \<le> x"
  shows "0 \<le> fl64 x"
proof (cases "x = 0")
  case True
  then show ?thesis by (simp add: fl64_def)
next
  case False
  define u :: real where "u = 2 powr (of_int \<lfloor>log 2 \<bar>x\<bar>\<rfloor> - 52)"
  have u: "0 < u" by (simp add: u_def)
  with assms have "0 \<le> x / u" by simp
  then have "0 \<le> \<lfloor>x / u\<rfloor>" by simp
  then have "0 \<le> round_half_even (x / u)"
    using round_half_even_ge_floor [of "x / u"] by linarith
  then show ?thesis using False u by (simp add: fl64_def Let_def u_def [symmetric])
qed

lemma fl64_le_grid:
  fixes K g :: int
  assumes x0: "0 < x" and le: "x \<le> of_int K * 2 powr of_int g"
    and e: "\<lfloor>log 2 x\<rfloor> - 52 \<le> g"
  shows "fl64 x \<le> of_int K * 2 powr of_int g"
proof -
  define e :: int where "e = \<lfloor>log 2 x\<rfloor> - 52"
  define u :: real where "u = 2 powr of_int e"
  have u: "0 < u" by (simp add: u_def)
  have ge: "0 \<le> g - e" using assms(3) by (simp add: e_def)
  have grid: "2 powr of_int g = of_int (2 ^ nat (g - e)) * u"
  proof -
    have cast: "real_of_int (g - e) = real (nat (g - e))" using ge by simp
    have "(2::real) powr real_of_int (g - e) = 2 powr real (nat (g - e))"
      by (simp only: cast)
    also have "\<dots> = 2 ^ nat (g - e)" by (rule powr_realpow) simp
    finally have pw: "(2::real) powr real_of_int (g - e) = 2 ^ nat (g - e)" .
    have "(2::real) powr of_int g = 2 powr (real_of_int (g - e) + of_int e)" by simp
    also have "\<dots> = 2 powr real_of_int (g - e) * 2 powr of_int e" by (rule powr_add)
    finally show ?thesis by (simp only: pw u_def of_int_power of_int_numeral)
  qed
  have "x / u \<le> of_int (K * 2 ^ nat (g - e))"
    using le u by (simp add: grid pos_divide_le_eq mult.assoc)
  then have "round_half_even (x / u) \<le> K * 2 ^ nat (g - e)"
    by (rule round_half_even_le_int)
  then have "of_int (round_half_even (x / u)) \<le> (of_int (K * 2 ^ nat (g - e)) :: real)"
    by (simp only: of_int_le_iff)
  then have "of_int (round_half_even (x / u)) * u \<le> of_int (K * 2 ^ nat (g - e)) * u"
    using u by (simp only: mult_le_cancel_right_pos)
  also have "\<dots> = of_int K * 2 powr of_int g" by (simp add: grid mult.assoc)
  finally have "of_int (round_half_even (x / u)) * u \<le> of_int K * 2 powr of_int g" .
  moreover have "fl64 x = of_int (round_half_even (x / u)) * u"
    using x0 by (simp add: fl64_def Let_def u_def e_def)
  ultimately show ?thesis by simp
qed

lemma two_pi64: "fl binary64 (2 * np_pi binary64) = 7074237752028440 / 2 ^ 50"
  using fl64_eval [where x = "2 * pi64" and n = 50 and k = 7074237752028440]
  by (simp add: pi64_def binary64_def)

lemma fl64_le_two_pi64:
  assumes "0 < x" and "x \<le> 7074237752028440 / 2 ^ 50"
  shows "fl64 x \<le> 7074237752028440 / 2 ^ 50"
proof -
  have T: "(7074237752028440 / 2 ^ 50 :: real) = of_int 7074237752028440 * 2 powr of_int (- 50)"
    by (simp add: powr_minus_divide)
  have "x < 2 powr 3" using assms(2) by simp
  then have "log 2 x < 3" using assms(1) by (simp add: log_less_iff)
  then have "\<lfloor>log 2 x\<rfloor> - 52 \<le> - 50" by (simp add: floor_less_iff)
  from fl64_le_grid [OF assms(1) assms(2) [unfolded T] this] show ?thesis unfolding T .
qed

lemma c_fmod_range:
  fixes a b :: real
  assumes "0 < b"
  defines "m \<equiv> a - b * of_int (py_int (a / b))"
  shows "- b < m" and "m < b"
proof -
  have lo: "of_int \<lfloor>a / b\<rfloor> * b \<le> a" and hi: "a < (of_int \<lfloor>a / b\<rfloor> + 1) * b"
    using assms(1) by (rule floor_divide_lower, rule floor_divide_upper)
  have clo: "(of_int \<lceil>a / b\<rceil> - 1) * b < a" and chi: "a \<le> of_int \<lceil>a / b\<rceil> * b"
    using assms(1) by (rule ceiling_divide_lower, rule ceiling_divide_upper)
  show "- b < m" using lo clo assms(1) by (auto simp: m_def py_int_def algebra_simps)
  show "m < b" using hi chi assms(1) by (auto simp: m_def py_int_def algebra_simps)
qed

lemma py_mod_binary64_range:
  fixes a :: real
  defines "T \<equiv> 7074237752028440 / 2 ^ 50"
  shows "0 \<le> py_mod binary64 a T \<and> py_mod binary64 a T \<le> T"
proof -
  define m where "m = a - T * of_int (py_int (a / T))"
  have T0: "0 < T" by (simp add: T_def)
  have r: "- T < m" "m < T" unfolding m_def using c_fmod_range [OF T0] by blast+
  show ?thesis
  proof (cases "m < 0")
    case True
    then have eq: "py_mod binary64 a T = fl64 (m + T)"
      using T0 by (simp add: py_mod_def Let_def m_def [symmetric] binary64_def)
    have p: "0 < m + T" and q: "m + T \<le> T" using r True by simp_all
    have "0 \<le> fl64 (m + T)" using p by (intro fl64_nonneg) simp
    moreover have "fl64 (m + T) \<le> T"
      unfolding T_def by (rule fl64_le_two_pi64) (use p q in \<open>simp_all add: T_def\<close>)
    ultimately show ?thesis by (simp add: eq)
  next
    case False
    then have eq: "py_mod binary64 a T = m"
      using T0 by (auto simp: py_mod_def Let_def m_def [symmetric])
    show ?thesis using False r by (simp add: eq)
  qed
qed

lemma py_mod_small:
  assumes "0 \<le> a" and "a < b"
  shows "py_mod ar a b = a"
proof -
  from assms have "0 \<le> a / b" and "a / b < 1" by simp_all
  then have "py_int (a / b) = 0" unfolding py_int_def by simp linarith
  then show ?thesis using assms by (simp add: py_mod_def Let_def)
qed

lemma py_mod_binary64_reaches_two_pi:
  "py_mod binary64 (- (1 / 2 ^ 70)) (7074237752028440 / 2 ^ 50) = 7074237752028440 / 2 ^ 50"
proof -
  define T :: real where "T = 7074237752028440 / 2 ^ 50"
  define a :: real where "a = - (1 / 2 ^ 70)"
  have "- 1 < a / T" and "a / T < 0" by (simp_all add: a_def T_def)
  then have "\<lceil>a / T\<rceil> = 0" by linarith
  then have t: "py_int (a / T) = 0" using \<open>a / T < 0\<close> by (simp add: py_int_def)
  have r: "fl64 (a + T) = T"
    using fl64_eval [where x = "a + T" and n = 50 and k = 7074237752028440]
    by (simp add: a_def T_def)
  have "a < 0" and "0 < T" by (simp_all add: a_def T_def)
  then have "py_mod binary64 a T = T"
    by (simp add: py_mod_def Let_def t r binary64_def)
  then show ?thesis by (simp add: a_def T_def)
qed

lemma box_mean_binary64:
  "box_mean_array binary64 =
     [8998489463008815 / 2 ^ 51, 7284359963327091 / 2 ^ 52, 854143783101411 / 2 ^ 49]"
proof -
  have m0: "fl64 3.996132075471698908 = 8998489463008815 / 2 ^ 51"
    using fl64_eval [where x = "3.996132075471698908" and n = 51 and k = 8998489463008815]
    by simp
  have m1: "fl64 1.617452830188679469 = 7284359963327091 / 2 ^ 52"
    using fl64_eval [where x = "1.617452830188679469" and n = 52 and k = 7284359963327091]
    by simp
  have m2: "fl64 1.517264150943395506 = 854143783101411 / 2 ^ 49"
    using fl64_eval [where x = "1.517264150943395506" and n = 52 and k = 6833150264811288]
    by simp
  show ?thesis
    unfolding box_mean_array_def box_mean_def binary64_def using m0 m1 m2 by simp
qed

text \<open>An upper bound of \<open>\<pi>\<close> from Machin's formula and the alternating series of the arctangent.\<close>

lemma arctan_series_term_decreasing:
  fixes x :: real
  assumes "0 \<le> x" and "x \<le> 1"
  shows "1 / real (Suc n * 2 + 1) * x ^ (Suc n * 2 + 1) \<le> 1 / real (n * 2 + 1) * x ^ (n * 2 + 1)"
proof -
  have p: "x ^ (Suc n * 2 + 1) \<le> x ^ (n * 2 + 1)"
    using assms by (intro power_decreasing) simp_all
  have q: "1 / real (Suc n * 2 + 1) \<le> 1 / real (n * 2 + 1)"
    by (simp add: frac_le)
  show ?thesis
    using p q assms by (intro mult_mono) simp_all
qed

lemma arctan_partial_sums:
  fixes x :: real
  assumes "0 \<le> x" and "x \<le> 1"
  shows "(\<Sum>i<2 * n. (- 1) ^ i * (1 / real (i * 2 + 1) * x ^ (i * 2 + 1))) \<le> arctan x"
    and "arctan x \<le> (\<Sum>i<2 * n + 1. (- 1) ^ i * (1 / real (i * 2 + 1) * x ^ (i * 2 + 1)))"
proof -
  have ax: "\<bar>x\<bar> \<le> 1" using assms by simp
  have pos: "0 \<le> 1 / real (k * 2 + 1) * x ^ (k * 2 + 1)" for k
    using assms by simp
  note lz = summable_Leibniz' [OF zeroseq_arctan_series [OF ax] pos
      arctan_series_term_decreasing [OF assms]]
  show "(\<Sum>i<2 * n. (- 1) ^ i * (1 / real (i * 2 + 1) * x ^ (i * 2 + 1))) \<le> arctan x"
    unfolding arctan_series [OF ax] by (rule lz(2))
  show "arctan x \<le> (\<Sum>i<2 * n + 1. (- 1) ^ i * (1 / real (i * 2 + 1) * x ^ (i * 2 + 1)))"
    unfolding arctan_series [OF ax] by (rule lz(4))
qed

lemma arctan_fifth_upper:
  "arctan (1 / 5) \<le> (\<Sum>i<11. (- 1) ^ i * (1 / real (i * 2 + 1) * (1 / 5) ^ (i * 2 + 1)))"
  using arctan_partial_sums(2) [of "1 / 5" 5] by simp

lemma arctan_239_lower:
  "(\<Sum>i<4. (- 1) ^ i * (1 / real (i * 2 + 1) * (1 / 239) ^ (i * 2 + 1))) \<le> arctan (1 / 239)"
  using arctan_partial_sums(1) [of "1 / 239" 2] by simp

lemma pi_upper: "pi < 3.1415926535898"
proof -
  have u: "(\<Sum>i<11. (- 1) ^ i * (1 / real (i * 2 + 1) * (1 / 5) ^ (i * 2 + 1)))
            = (273896561325114716617 / 1387551784515380859375 :: real)"
    by (simp add: eval_nat_numeral)
  have l: "(\<Sum>i<4. (- 1) ^ i * (1 / real (i * 2 + 1) * (1 / 239) ^ (i * 2 + 1)))
            = (19569249503065996 / 4677077924340368295 :: real)"
    by (simp add: eval_nat_numeral)
  have a5: "arctan (1 / 5) \<le> 273896561325114716617 / 1387551784515380859375"
    using arctan_fifth_upper unfolding u .
  have a239: "19569249503065996 / 4677077924340368295 \<le> arctan (1 / 239)"
    using arctan_239_lower unfolding l .
  have "pi = 16 * arctan (1 / 5) - 4 * arctan (1 / 239)"
    using machin by simp
  also have "\<dots> \<le> 16 * (273896561325114716617 / 1387551784515380859375)
                    - 4 * (19569249503065996 / 4677077924340368295)"
    using a5 a239 by linarith
  also have "\<dots> < 3.1415926535898" by simp
  finally show ?thesis .
qed


text \<open>Two calls of \<open>angle2class\<close> in binary64, each at the boundary of two bins.\<close>

lemma angle2class_binary64_eval_12:
  "angle2class binary64 (6779477845693921 / 2 ^ 50) 12 = Inr (12, - (294759906334519 / 2 ^ 50))"
proof -
  define a0 :: real where "a0 = 6779477845693921 / 2 ^ 50"
  define T :: real where "T = 7074237752028440 / 2 ^ 50"
  define A :: real where "A = 4716158501352293 / 2 ^ 53"
  define H :: real where "H = 4716158501352293 / 2 ^ 54"
  define S :: real where "S = 7074237752028439 / 2 ^ 50"
  define P :: real where "P = 7368997658362958 / 2 ^ 50"
  define R :: real where "R = - (294759906334519 / 2 ^ 50)"
  have fl: "fl binary64 = fl64" and np: "np_pi binary64 = pi64" by (simp_all add: binary64_def)
  have tp: "fl64 (2 * pi64) = T"
    using fl64_eval [where x = "2 * pi64" and n = 50 and k = 7074237752028440]
    by (simp add: pi64_def T_def)
  have ang: "py_mod binary64 a0 T = a0"
    by (rule py_mod_small) (simp_all add: a0_def T_def)
  have a_ok: "a0 \<ge> 0 \<and> a0 \<le> T" by (simp add: a0_def T_def)
  have n12: "fl64 12 = 12"
    using fl64_eval [where x = 12 and n = 49 and k = 6755399441055744] by simp
  have apc: "fl64 (T / 12) = A"
    using fl64_eval [where x = "T / 12" and n = 53 and k = 4716158501352293]
    by (simp add: T_def A_def)
  have half: "fl64 (A / 2) = H"
    using fl64_eval [where x = "A / 2" and n = 54 and k = 4716158501352293]
    by (simp add: A_def H_def)
  have sum: "fl64 (a0 + H) = S"
    using fl64_eval [where x = "a0 + H" and n = 50 and k = 7074237752028439]
    by (simp add: a0_def H_def S_def)
  have sh: "py_mod binary64 S T = S"
    by (rule py_mod_small) (simp_all add: S_def T_def)
  have q: "fl64 (S / A) = 12"
    using fl64_eval [where x = "S / A" and n = 49 and k = 6755399441055744]
    by (simp add: S_def A_def)
  have c: "py_int 12 = 12" by (simp add: py_int_def)
  have prod: "fl64 (12 * A) = T"
    using fl64_eval_tie [where x = "12 * A" and n = 50 and k = 7074237752028440]
    by (simp add: A_def T_def)
  have centre: "fl64 (T + H) = P"
    using fl64_eval [where x = "T + H" and n = 50 and k = 7368997658362958]
    by (simp add: T_def H_def P_def)
  have res: "fl64 (S - P) = R"
    using fl64_eval [where x = "S - P" and n = 54 and k = "- 4716158501352304"]
    by (simp add: S_def P_def R_def)
  have "angle2class binary64 a0 12 = Inr (12, R)"
    unfolding angle2class_def Let_def fl np tp ang
    using a_ok by (simp add: n12 apc half sum sh q c prod centre res)
  then show ?thesis by (simp add: a0_def R_def)
qed

lemma angle2class_binary64_eval_360:
  "angle2class binary64 (148608119443653 / 2 ^ 47) 360 = Inr (60, 39301320844603 / 2 ^ 52)"
proof -
  define a1 :: real where "a1 = 148608119443653 / 2 ^ 47"
  define T :: real where "T = 7074237752028440 / 2 ^ 50"
  define A :: real where "A = 5030569068109113 / 2 ^ 58"
  define H :: real where "H = 5030569068109113 / 2 ^ 59"
  define S :: real where "S = 4794761143041498 / 2 ^ 52"
  define Q :: real where "Q = 8584986789675007 / 2 ^ 47"
  define D :: real where "D = 4716158501352293 / 2 ^ 52"
  define P :: real where "P = 4755459822196895 / 2 ^ 52"
  define R :: real where "R = 39301320844603 / 2 ^ 52"
  have fl: "fl binary64 = fl64" and np: "np_pi binary64 = pi64" by (simp_all add: binary64_def)
  have tp: "fl64 (2 * pi64) = T"
    using fl64_eval [where x = "2 * pi64" and n = 50 and k = 7074237752028440]
    by (simp add: pi64_def T_def)
  have ang: "py_mod binary64 a1 T = a1"
    by (rule py_mod_small) (simp_all add: a1_def T_def)
  have a_ok: "a1 \<ge> 0 \<and> a1 \<le> T" by (simp add: a1_def T_def)
  have n360: "fl64 360 = 360"
    using fl64_eval [where x = 360 and n = 44 and k = 6333186975989760] by simp
  have apc: "fl64 (T / 360) = A"
    using fl64_eval [where x = "T / 360" and n = 58 and k = 5030569068109113]
    by (simp add: T_def A_def)
  have half: "fl64 (A / 2) = H"
    using fl64_eval [where x = "A / 2" and n = 59 and k = 5030569068109113]
    by (simp add: A_def H_def)
  have sum: "fl64 (a1 + H) = S"
    using fl64_eval [where x = "a1 + H" and n = 52 and k = 4794761143041498]
    by (simp add: a1_def H_def S_def)
  have sh: "py_mod binary64 S T = S"
    by (rule py_mod_small) (simp_all add: S_def T_def)
  have q: "fl64 (S / A) = Q"
    using fl64_eval [where x = "S / A" and n = 47 and k = 8584986789675007]
    by (simp add: S_def A_def Q_def)
  have "60 \<le> Q" and "Q < 61" by (simp_all add: Q_def)
  then have "\<lfloor>Q\<rfloor> = 60" by linarith
  then have c: "py_int Q = 60" using \<open>60 \<le> Q\<close> by (simp add: py_int_def)
  have n60: "fl64 60 = 60"
    using fl64_eval [where x = 60 and n = 47 and k = 8444249301319680] by simp
  have prod: "fl64 (60 * A) = D"
    using fl64_eval [where x = "60 * A" and n = 52 and k = 4716158501352293]
    by (simp add: A_def D_def)
  have centre: "fl64 (D + H) = P"
    using fl64_eval [where x = "D + H" and n = 52 and k = 4755459822196895]
    by (simp add: D_def H_def P_def)
  have res: "fl64 (S - P) = R"
    using fl64_eval [where x = "S - P" and n = 59 and k = 5030569068109184]
    by (simp add: S_def P_def R_def)
  have "angle2class binary64 a1 360 = Inr (60, R)"
    unfolding angle2class_def Let_def fl np tp ang
    using a_ok by (simp add: n360 apc half sum sh q c n60 prod centre res)
  then show ?thesis by (simp add: a1_def R_def)
qed

section \<open>angle2class: class and residual\<close>

text \<open>
  In exact arithmetic, for an angle \<open>a\<close> with \<open>0 \<le> a < 2\<pi>\<close> and a class count
  \<open>N \<ge> 1\<close>, \<open>angle2class\<close> returns a pair \<open>(c, r)\<close> with \<open>0 \<le> c < N\<close> and
  \<open>c * (2\<pi>/N) + r\<close> congruent to \<open>a\<close> modulo \<open>2\<pi>\<close>: the two differ by an integer
  multiple of \<open>2\<pi>\<close>.
\<close>

theorem angle2class_exact_reconstructs:
  assumes "0 \<le> a" and "a < 2 * pi" and "1 \<le> N"
  shows "\<exists>c r. angle2class exact a N = Inr (c, r) \<and> 0 \<le> c \<and> c < N \<and>
           (\<exists>k::int. of_int c * (2 * pi / of_int N) + r = a + 2 * pi * of_int k)"
proof -
  define apc where "apc = 2 * pi / real_of_int N"
  define s where "s = py_fmod (py_fmod a (2 * pi) + apc / 2) (2 * pi)"
  define c where "c = \<lfloor>s / apc\<rfloor>"
  define r where "r = s - (of_int c * apc + apc / 2)"
  have tp: "0 < 2 * pi" by simp
  have eq: "angle2class exact a N = Inr (c, r)"
    using angle2class_unfold [OF assms(3), of a] by (simp add: apc_def s_def c_def r_def)
  have s0: "0 \<le> s" and s1: "s < 2 * pi"
    unfolding s_def using py_fmod_range [OF tp] by blast+
  have c0: "0 \<le> c" and c1: "c < N"
    unfolding c_def apc_def using angle2class_class_range [OF assms(3) s0 s1] by blast+
  have a_id: "py_fmod a (2 * pi) = a" using assms(1,2) by (rule py_fmod_id)
  have "of_int c * apc + r = s - apc / 2" by (simp add: r_def)
  also have "\<dots> = a + 2 * pi * of_int (- \<lfloor>(a + apc / 2) / (2 * pi)\<rfloor>)"
    unfolding s_def a_id by (simp add: py_fmod_def)
  finally have "\<exists>k::int. of_int c * apc + r = a + 2 * pi * of_int k" by blast
  with eq c0 c1 show ?thesis unfolding apc_def by blast
qed

theorem angle2class_exact_reconstructs_witness:
  "(0::real) \<le> 1 \<and> (1::real) < 2 * pi \<and> (1::int) \<le> 4 \<and>
   (\<exists>c r. angle2class exact 1 4 = Inr (c, r) \<and> 0 \<le> c \<and> c < 4 \<and>
      (\<exists>k::int. of_int c * (2 * pi / of_int 4) + r = 1 + 2 * pi * of_int k))"
proof -
  have h: "(1::real) < 2 * pi" using pi_ge_two by simp
  show ?thesis using h angle2class_exact_reconstructs [of 1 4] by simp
qed

text \<open>
  C1. The claim asks for a class index in \<open>[0, N)\<close> for every angle of \<open>[0, 2\<pi>)\<close>, as
  the docstring of \<open>angle2class\<close> does. In binary64 this fails: for the double
  \<open>6.021385919380436\<close>, which is \<open>6779477845693921 / 2 ^ 50\<close>, and twelve classes, the
  shifted angle is the double just below \<open>2 * np.pi\<close>, its quotient by the bin width
  rounds up to \<open>12.0\<close>, and the class index returned is \<open>12\<close>.
\<close>

theorem angle2class_binary64_class_out_of_range:
  "0 \<le> (6779477845693921 / 2 ^ 50 :: real) \<and>
   6779477845693921 / 2 ^ 50 < fl binary64 (2 * np_pi binary64) \<and>
   angle2class binary64 (6779477845693921 / 2 ^ 50) 12 = Inr (12, - (294759906334519 / 2 ^ 50))"
proof -
  have "0 \<le> (6779477845693921 / 2 ^ 50 :: real) \<and>
        6779477845693921 / 2 ^ 50 < fl binary64 (2 * np_pi binary64)"
    unfolding two_pi64 by simp
  with angle2class_binary64_eval_12 show ?thesis by simp
qed

text \<open>
  C9. For every real angle and every class count \<open>N \<ge> 1\<close>, in exact arithmetic and in
  binary64 alike, the value \<open>angle % (2 * np.pi)\<close> computed first lies in the closed
  interval from \<open>0\<close> to \<open>2 * np.pi\<close>, so the assertion holds: \<open>angle2class\<close> never ends
  in \<open>AssertionError\<close>, and it returns a pair.
\<close>

theorem angle2class_assert_holds:
  assumes N: "1 \<le> N" and ar: "ar = exact \<or> ar = binary64"
  shows "0 \<le> py_mod ar a (fl ar (2 * np_pi ar)) \<and>
         py_mod ar a (fl ar (2 * np_pi ar)) \<le> fl ar (2 * np_pi ar) \<and>
         angle2class ar a N \<noteq> Inl AssertionError \<and>
         (\<exists>c r. angle2class ar a N = Inr (c, r))"
proof -
  from N have N0: "N \<noteq> 0" by simp
  have rng: "0 \<le> py_mod ar a (fl ar (2 * np_pi ar)) \<and>
             py_mod ar a (fl ar (2 * np_pi ar)) \<le> fl ar (2 * np_pi ar)"
    using ar
  proof
    assume e: "ar = exact"
    have tp: "0 < 2 * pi" by simp
    have "0 \<le> py_fmod a (2 * pi)" and "py_fmod a (2 * pi) < 2 * pi"
      using py_fmod_range [OF tp] by blast+
    then have "0 \<le> py_mod exact a (2 * pi) \<and> py_mod exact a (2 * pi) \<le> 2 * pi"
      by (simp add: py_mod_exact [OF tp])
    moreover have "fl exact (2 * np_pi exact) = 2 * pi" by (simp add: exact_def)
    ultimately show ?thesis by (simp add: e)
  next
    assume b: "ar = binary64"
    show ?thesis unfolding b two_pi64 by (rule py_mod_binary64_range)
  qed
  then show ?thesis using N0 by (simp add: angle2class_def Let_def)
qed

theorem angle2class_assert_holds_witness:
  "(1::int) \<le> 12 \<and>
   0 \<le> py_mod binary64 (- 7) (fl binary64 (2 * np_pi binary64)) \<and>
   py_mod binary64 (- 7) (fl binary64 (2 * np_pi binary64)) \<le> fl binary64 (2 * np_pi binary64) \<and>
   angle2class binary64 (- 7) 12 \<noteq> Inl AssertionError \<and>
   (\<exists>c r. angle2class binary64 (- 7) 12 = Inr (c, r))"
  using angle2class_assert_holds [of 12 binary64 "- 7"] by simp

text \<open>
  C10, as stated, fails in binary64 at both ends of the interval. For the double
  \<open>6.021385919380436\<close> and twelve classes the residual returned is
  \<open>-0.26179938779915\<close>, below \<open>-\<pi>/12\<close>. For the double \<open>1.0559241974565694\<close>, which
  is \<open>148608119443653 / 2 ^ 47\<close>, and 360 classes the class index is 60, in range, and
  the residual returned is \<open>0.008726646259971771\<close>, not below \<open>\<pi>/360\<close>.
\<close>

theorem angle2class_binary64_residual_counterexample:
  "angle2class binary64 (6779477845693921 / 2 ^ 50) 12 = Inr (12, - (294759906334519 / 2 ^ 50))
   \<and> - (294759906334519 / 2 ^ 50) < - (pi / 12)
   \<and> angle2class binary64 (148608119443653 / 2 ^ 47) 360 = Inr (60, 39301320844603 / 2 ^ 52)
   \<and> pi / 360 \<le> 39301320844603 / 2 ^ 52"
proof -
  have lo: "- (294759906334519 / 2 ^ 50) < - (pi / 12)"
    using pi_upper by simp
  have hi: "pi / 360 \<le> 39301320844603 / 2 ^ 52"
    using pi_upper by simp
  from angle2class_binary64_eval_12 lo angle2class_binary64_eval_360 hi
  show ?thesis by (intro conjI)
qed

text \<open>
  C10, amended. In exact arithmetic, for every real angle and every class count
  \<open>N \<ge> 1\<close>, the residual that \<open>angle2class\<close> returns lies in the half-open interval
  \<open>[-\<pi>/N, \<pi>/N)\<close>: at most half a bin width from the class centre.
\<close>

theorem angle2class_residual_bound:
  assumes "1 \<le> N"
  shows "\<exists>c r. angle2class exact a N = Inr (c, r) \<and> - (pi / of_int N) \<le> r \<and> r < pi / of_int N"
proof -
  define apc where "apc = 2 * pi / real_of_int N"
  define s where "s = py_fmod (py_fmod a (2 * pi) + apc / 2) (2 * pi)"
  have apc_pos: "0 < apc" using assms by (simp add: apc_def)
  have half: "apc / 2 = pi / of_int N" by (simp add: apc_def)
  have eq: "angle2class exact a N = Inr (\<lfloor>s / apc\<rfloor>, s - (of_int \<lfloor>s / apc\<rfloor> * apc + apc / 2))"
    using angle2class_unfold [OF assms, of a] by (simp add: apc_def s_def)
  show ?thesis using eq frac_bin_bounds [OF apc_pos, of s] unfolding half by auto
qed

theorem angle2class_residual_bound_witness:
  "(1::int) \<le> 12 \<and>
   (\<exists>c r. angle2class exact 100 12 = Inr (c, r) \<and> - (pi / of_int 12) \<le> r \<and> r < pi / of_int 12)"
  using angle2class_residual_bound [of 12 100] by simp

section \<open>rotate_pc_along_y: a rotation of the (x, z) plane\<close>

text \<open>
  C6. For every point array and every angle \<open>t\<close>, \<open>rotate_pc_along_y\<close> keeps
  \<open>x\<^sup>2 + z\<^sup>2\<close> of every point; rotating by \<open>0\<close> returns the array unchanged; and rotating
  by \<open>t\<close> and then by \<open>-t\<close> returns the original array.
\<close>

theorem rotate_pc_along_y_rotation:
  "map (\<lambda>p. (px p)\<^sup>2 + (pz p)\<^sup>2) (rotate_pc_along_y pc t) = map (\<lambda>p. (px p)\<^sup>2 + (pz p)\<^sup>2) pc
   \<and> rotate_pc_along_y pc 0 = pc
   \<and> rotate_pc_along_y (rotate_pc_along_y pc t) (- t) = pc"
proof (intro conjI)
  show "map (\<lambda>p. (px p)\<^sup>2 + (pz p)\<^sup>2) (rotate_pc_along_y pc t) = map (\<lambda>p. (px p)\<^sup>2 + (pz p)\<^sup>2) pc"
    unfolding rotate_pc_along_y_unfold
    by (simp add: o_def rot_sq [OF sin_cos_squared_add] del: mult_minus_right)
  show "rotate_pc_along_y pc 0 = pc"
    unfolding rotate_pc_along_y_unfold by (simp add: map_idI)
  show "rotate_pc_along_y (rotate_pc_along_y pc t) (- t) = pc"
    unfolding rotate_pc_along_y_unfold
    by (simp add: o_def map_idI rot_back_x [OF sin_cos_squared_add]
          rot_back_z [OF sin_cos_squared_add] del: mult_minus_right minus_minus)
qed

section \<open>size2class: the residual of the mean box size\<close>

text \<open>
  C7, as stated, fails in binary64: for the box of a pedestrian, the doubles \<open>0.8\<close>,
  \<open>0.6\<close> and \<open>1.76\<close>, the subtraction of the mean rounds in the first two components,
  and adding the mean back gives \<open>0.8000000000000003\<close> and \<open>0.5999999999999999\<close>.
\<close>

theorem size2class_binary64_round_trip_counterexample:
  "size2class binary64 [3602879701896397 / 2 ^ 52, 5404319552844595 / 2 ^ 53, 7926335344172073 / 2 ^ 52]
     = Inr [- (899631201507577 / 2 ^ 48), - (2291100093452397 / 2 ^ 51), 1093185079360785 / 2 ^ 52]
   \<and> np_add binary64
         [- (899631201507577 / 2 ^ 48), - (2291100093452397 / 2 ^ 51), 1093185079360785 / 2 ^ 52]
         (box_mean_array binary64)
     = Inr [1801439850948199 / 2 ^ 51, 2702159776422297 / 2 ^ 52, 7926335344172073 / 2 ^ 52]
   \<and> [1801439850948199 / 2 ^ 51, 2702159776422297 / 2 ^ 52, 7926335344172073 / 2 ^ 52]
       \<noteq> [3602879701896397 / 2 ^ 52, 5404319552844595 / 2 ^ 53, 7926335344172073 / 2 ^ (52::nat) :: real]"
proof -
  define s0 :: real where "s0 = 3602879701896397 / 2 ^ 52"
  define s1 :: real where "s1 = 5404319552844595 / 2 ^ 53"
  define s2 :: real where "s2 = 7926335344172073 / 2 ^ 52"
  define m0 :: real where "m0 = 8998489463008815 / 2 ^ 51"
  define m1 :: real where "m1 = 7284359963327091 / 2 ^ 52"
  define m2 :: real where "m2 = 854143783101411 / 2 ^ 49"
  define d0 :: real where "d0 = - (899631201507577 / 2 ^ 48)"
  define d1 :: real where "d1 = - (2291100093452397 / 2 ^ 51)"
  define d2 :: real where "d2 = 1093185079360785 / 2 ^ 52"
  define b0 :: real where "b0 = 1801439850948199 / 2 ^ 51"
  define b1 :: real where "b1 = 2702159776422297 / 2 ^ 52"
  have fl: "fl binary64 = fl64" by (simp add: binary64_def)
  have mean: "box_mean_array binary64 = [m0, m1, m2]"
    by (simp add: box_mean_binary64 m0_def m1_def m2_def)
  have e0: "fl64 (s0 - m0) = d0"
    using fl64_eval_tie [where x = "s0 - m0" and n = 51 and k = "- 7197049612060616"]
    by (simp add: s0_def m0_def d0_def)
  have e1: "fl64 (s1 - m1) = d1"
    using fl64_eval_tie_above [where x = "s1 - m1" and n = 52 and k = "- 4582200186904794"]
    by (simp add: s1_def m1_def d1_def)
  have e2: "fl64 (s2 - m2) = d2"
    using fl64_eval [where x = "s2 - m2" and n = 55 and k = 8745480634886280]
    by (simp add: s2_def m2_def d2_def)
  have a0: "fl64 (d0 + m0) = b0"
    using fl64_eval [where x = "d0 + m0" and n = 53 and k = 7205759403792796]
    by (simp add: d0_def m0_def b0_def)
  have a1: "fl64 (d1 + m1) = b1"
    using fl64_eval [where x = "d1 + m1" and n = 53 and k = 5404319552844594]
    by (simp add: d1_def m1_def b1_def)
  have a2: "fl64 (d2 + m2) = s2"
    using fl64_eval [where x = "d2 + m2" and n = 52 and k = 7926335344172073]
    by (simp add: d2_def m2_def s2_def)
  have sub: "size2class binary64 [s0, s1, s2] = Inr [d0, d1, d2]"
    unfolding size2class_def np_sub_def np_broadcast_def mean fl by (simp add: e0 e1 e2)
  have add: "np_add binary64 [d0, d1, d2] (box_mean_array binary64) = Inr [b0, b1, s2]"
    unfolding np_add_def np_broadcast_def mean fl by (simp add: a0 a1 a2)
  have ne: "b0 \<noteq> s0" by (simp add: b0_def s0_def)
  from sub add ne show ?thesis
    unfolding s0_def s1_def s2_def d0_def d1_def d2_def b0_def b1_def by simp
qed

text \<open>
  C7, amended. In exact arithmetic, for every size vector of three components,
  \<open>size2class\<close> returns a vector that, added to the mean box size, gives the size back.
\<close>

theorem size2class_invertible:
  assumes "length sz = 3"
  shows "\<exists>r. size2class exact sz = Inr r \<and> np_add exact r (box_mean_array exact) = Inr sz"
proof -
  obtain a b c where sz: "sz = [a, b, c]"
    using assms by (auto simp: length_Suc_conv numeral_3_eq_3)
  show ?thesis
    by (simp add: sz size2class_def np_sub_def np_add_def np_broadcast_def box_mean_array_def
          box_mean_def exact_def)
qed

theorem size2class_invertible_witness:
  "length [4, 2, 3 / 2 :: real] = 3 \<and>
   (\<exists>r. size2class exact [4, 2, 3 / 2] = Inr r \<and>
        np_add exact r (box_mean_array exact) = Inr [4, 2, 3 / 2])"
  using size2class_invertible [of "[4, 2, 3 / 2]"] by simp

section \<open>myPointData.__getitem__\<close>

lemma np_random_choice_ok:
  assumes "0 < n"
  shows "\<exists>ch. np_random_choice raw n k = Inr ch \<and> length ch = k \<and> list_all (\<lambda>i. i < n) ch"
  using assms by (simp add: np_random_choice_def list_all_iff)

lemma np_take_ok:
  assumes "list_all (\<lambda>i. i < n) ch" and "n \<le> length xs"
  shows "\<exists>ys. np_take xs ch = Inr ys \<and> length ys = length ch"
proof -
  from assms have "list_all (\<lambda>i. i < length xs) ch"
    by (auto simp: list_all_iff)
  then show ?thesis by (simp add: np_take_def)
qed

lemma random_flip_step_length:
  "random_flip_step flag u (pts, c, h) = (pts', c', h') \<Longrightarrow> length pts' = length pts"
  by (cases c) (auto simp: random_flip_step_def split: if_splits prod.splits)

lemma random_shift_step_length:
  "random_shift_step flag g (pts, c) = (pts', c') \<Longrightarrow> length pts' = length pts"
  by (cases c) (auto simp: random_shift_step_def Let_def split: if_splits prod.splits)

lemma size2class_ok:
  assumes "length sz = 3"
  shows "\<exists>r. size2class exact sz = Inr r"
  using assms by (simp add: size2class_def np_sub_def np_broadcast_def box_mean_array_def box_mean_def)

lemma angle2class_ok:
  assumes "N \<noteq> 0"
  shows "\<exists>c r. angle2class exact a N = Inr (c, r)"
proof -
  have tp: "0 < 2 * pi" by simp
  have r1: "0 \<le> py_fmod a (2 * pi)" and r2: "py_fmod a (2 * pi) < 2 * pi"
    using py_fmod_range [OF tp] by blast+
  have ex: "fl exact = (\<lambda>x. x)" "np_pi exact = pi" by (simp_all add: exact_def)
  show ?thesis using r1 r2 assms
    unfolding angle2class_def Let_def ex py_mod_exact [OF tp] by simp
qed


text \<open>
  C2, as stated, fails on an empty point cloud: with sixteen points requested,
  \<open>np.random.choice\<close> has nothing to draw from and the fetch ends in \<open>ValueError\<close>.
\<close>

theorem getitem_empty_cloud_counterexample:
  "myPointData_getitem empty_cloud_data fixed_draws 0 = Inl ValueError"
  by (simp add: myPointData_getitem_def empty_cloud_data_def empty_cloud_def py_index_def
        np_random_choice_def)

text \<open>
  C2, amended. For a valid index whose stored cloud has at least one point, one label
  per point and a box size of three components, and a non-zero number of angle classes,
  \<open>__getitem__\<close> returns, and it returns exactly \<open>num_point\<close> points and exactly
  \<open>num_point\<close> labels, whatever the number of stored points and whatever is drawn.
\<close>

theorem getitem_fixed_size:
  assumes idx: "py_index (points self) index = Inr (path, d)"
    and pts: "pts = (if lidar self then point_velo d else point_2d d)"
    and seg: "seg = (if lidar self then velo_label d else label d)"
    and nonempty: "pts \<noteq> []"
    and labels: "length seg = length pts"
    and sz: "length (box3d_size d) = 3"
    and na: "num_angle self \<noteq> 0"
  shows "\<exists>item. myPointData_getitem self rnd index = Inr item \<and>
           length (points_rot item) = num_point self \<and>
           length (seg_mask item) = num_point self"
proof -
  from nonempty have n0: "0 < length pts" by simp
  obtain ch where ch: "np_random_choice (choice_raw rnd) (length pts) (num_point self) = Inr ch"
      and chl: "length ch = num_point self" and chr: "list_all (\<lambda>i. i < length pts) ch"
    using np_random_choice_ok [OF n0] by blast
  obtain pts1 where p1: "np_take pts ch = Inr pts1" and p1l: "length pts1 = length ch"
    using np_take_ok [OF chr order_refl] by blast
  obtain seg1 where s1: "np_take seg ch = Inr seg1" and s1l: "length seg1 = length ch"
    using np_take_ok [OF chr, of seg] labels by auto
  obtain pts2 c2 h2 where f: "random_flip_step (random_flip self) (random_u rnd)
      (pts1, box3d_center d, heading d) = (pts2, c2, h2)"
    by (metis prod_cases3)
  obtain pts3 c3 where sh: "random_shift_step (random_shift self) (randn_g rnd) (pts2, c2) = (pts3, c3)"
    by (metis surj_pair)
  have l3: "length pts3 = num_point self"
    using random_flip_step_length [OF f] random_shift_step_length [OF sh] p1l chl by simp
  obtain sr where sr: "size2class exact (box3d_size d) = Inr sr"
    using size2class_ok [OF sz] by blast
  obtain ac ar where ang: "angle2class exact (h2 - (pi / 2 + frustum_angle d)) (num_angle self) = Inr (ac, ar)"
    using angle2class_ok [OF na] by blast
  show ?thesis
  proof (cases "lidar self")
    case True
    with pts seg have "pts = point_velo d" and "seg = velo_label d" by simp_all
    with True idx ch p1 s1 f sh sr ang l3 s1l chl show ?thesis
      by (simp add: myPointData_getitem_def Let_def rotate_pc_along_y_length)
  next
    case False
    with pts seg have "pts = point_2d d" and "seg = label d" by simp_all
    with False idx ch p1 s1 f sh sr ang l3 s1l chl show ?thesis
      by (simp add: myPointData_getitem_def Let_def rotate_pc_along_y_length)
  qed
qed

theorem getitem_fixed_size_witness:
  "\<exists>item. myPointData_getitem two_point_data fixed_draws 0 = Inr item \<and>
           length (points_rot item) = 3 \<and> length (seg_mask item) = 3"
proof -
  have "\<exists>item. myPointData_getitem two_point_data fixed_draws 0 = Inr item \<and>
           length (points_rot item) = num_point two_point_data \<and>
           length (seg_mask item) = num_point two_point_data"
    by (rule getitem_fixed_size [where path = "''frustums/000007.npy''" and d = two_point_cloud
          and pts = "point_2d two_point_cloud" and seg = "label two_point_cloud"])
       (simp_all add: two_point_data_def two_point_cloud_def py_index_def)
  then show ?thesis by (simp add: two_point_data_def)
qed




section \<open>myImageFloder.__getitem__\<close>

lemma randint_ok:
  assumes "a \<le> b"
  shows "\<exists>x. randint raw a b = Inr x \<and> a \<le> x \<and> x \<le> b"
proof -
  have pos: "0 < b - a + 1" using assms by simp
  have lo: "0 \<le> int raw mod (b - a + 1)" using pos by (rule pos_mod_sign)
  have hi: "int raw mod (b - a + 1) < b - a + 1" using pos by (rule pos_mod_bound)
  have eq: "randint raw a b = Inr (a + int raw mod (b - a + 1))"
    using assms by (simp add: randint_def)
  from lo hi show ?thesis unfolding eq by auto
qed

lemma get_transform_size: "image_size (get_transform im) = image_size im"
  by (simp add: get_transform_def normalize_def to_tensor_def image_size_def split: prod.splits)

lemma crop_size: "image_size (crop fill im (l, u, r, b)) = (r - l, b - u)"
  by (simp add: crop_def image_size_def)

lemma to_array_div256_size: "image_size (to_array_div256 im) = image_size im"
  by (simp add: to_array_div256_def image_size_def)

lemma np_slice_size:
  assumes "0 \<le> ya" and "ya \<le> yb" and "yb \<le> im_h a" and "0 \<le> xa" and "xa \<le> xb" and "xb \<le> im_w a"
  shows "image_size (np_slice a ya yb xa xb) = (xb - xa, yb - ya)"
  using assms by (simp add: np_slice_def image_size_def Let_def min_def max_def)

lemma getitem_eval:
  assumes ev: "\<not> training self"
    and li: "py_index (left self) index = Inr li"
    and ri: "py_index (right self) index = Inr ri"
    and nm: "py_index (name self) index = Inr nm"
    and dl: "load self \<or> py_index (disp_L self) index = Inr d"
  shows "myImageFloder_getitem self rnd index =
           Inr (EvalItem
             (get_transform (crop (0, 0, 0) li (im_w li - 1232, im_h li - 368, im_w li, im_h li)))
             (get_transform (crop (0, 0, 0) ri (im_w li - 1232, im_h li - 368, im_w li, im_h li)))
             (if load self then DispZero
              else DispArray (to_array_div256 (crop 0 d (im_w li - 1232, im_h li - 368, im_w li, im_h li))))
             nm (im_w li) (im_h li))"
  using assms by (auto simp: myImageFloder_getitem_def Let_def)

lemma getitem_train:
  assumes tr: "training self"
    and li: "py_index (left self) index = Inr li"
    and ri: "py_index (right self) index = Inr ri"
    and nm: "py_index (name self) index = Inr nm"
    and dl: "load self \<or> py_index (disp_L self) index = Inr d"
    and x1: "randint (fst rnd) 0 (im_w li - 512) = Inr x1"
    and y1: "randint (snd rnd) 0 (im_h li - 256) = Inr y1"
  shows "myImageFloder_getitem self rnd index =
           Inr (TrainItem
             (get_transform (crop (0, 0, 0) li (x1, y1, x1 + 512, y1 + 256)))
             (get_transform (crop (0, 0, 0) ri (x1, y1, x1 + 512, y1 + 256)))
             (if load self then DispZero
              else DispArray (np_slice (to_array_div256 d) y1 (y1 + 256) x1 (x1 + 512)))
             nm)"
  using assms by (auto simp: myImageFloder_getitem_def Let_def)

text \<open>
  C3, as stated, fails on a 1242 x 375 image: the cropped left image is 1232 x 368, and
  the two trailing integers are 1242 and 375.
\<close>

theorem getitem_eval_trailing_counterexample:
  "map_sum id item_trailing (myImageFloder_getitem kitti_eval_data (0, 0) 0) = Inr (Some (1242, 375))
   \<and> map_sum id (\<lambda>it. image_size (item_left it)) (myImageFloder_getitem kitti_eval_data (0, 0) 0)
       = Inr (1232, 368)"
  by (simp add: myImageFloder_getitem_def kitti_eval_data_def py_index_def Let_def
        item_trailing_def item_left_def black_image_def get_transform_size crop_size)

text \<open>
  C3, amended. Outside training mode \<open>__getitem__\<close> returns, after the name, the width
  and the height of the left image as loaded, before the crop; the cropped image it
  returns is 1232 x 368.
\<close>

theorem getitem_eval_trailing:
  assumes ev: "\<not> training self"
    and li: "py_index (left self) index = Inr li"
    and ri: "py_index (right self) index = Inr ri"
    and nm: "py_index (name self) index = Inr nm"
    and dl: "load self \<or> py_index (disp_L self) index = Inr d"
  shows "\<exists>item. myImageFloder_getitem self rnd index = Inr item \<and>
           item_trailing item = Some (im_w li, im_h li) \<and>
           image_size (item_left item) = (1232, 368)"
  unfolding getitem_eval [OF assms]
  by (simp add: item_trailing_def item_left_def get_transform_size crop_size)

theorem getitem_eval_trailing_witness:
  "\<exists>item. myImageFloder_getitem kitti_eval_data (0, 0) 0 = Inr item \<and>
           item_trailing item = Some (1242, 375) \<and>
           image_size (item_left item) = (1232, 368)"
proof -
  have "\<exists>item. myImageFloder_getitem kitti_eval_data (0, 0) 0 = Inr item \<and>
           item_trailing item = Some (im_w (black_image 1242 375), im_h (black_image 1242 375)) \<and>
           image_size (item_left item) = (1232, 368)"
    by (rule getitem_eval_trailing [where ri = "black_image 1242 375"
          and nm = "''000000_10.png''" and d = "flat_disparity 1242 375"])
       (simp_all add: kitti_eval_data_def py_index_def)
  then show ?thesis by (simp add: black_image_def)
qed

text \<open>
  C8. When the crop window of the mode fits in the left image (512 x 256 in training
  mode, 1232 x 368 otherwise) and the disparity map, if one is loaded, has the size of
  the left image, \<open>__getitem__\<close> returns both images, and the disparity map when present,
  with exactly the size of that window.
\<close>

theorem getitem_crop_sizes:
  assumes li: "py_index (left self) index = Inr li"
    and ri: "py_index (right self) index = Inr ri"
    and nm: "py_index (name self) index = Inr nm"
    and dl: "load self \<or> (py_index (disp_L self) index = Inr d \<and> image_size d = image_size li)"
    and big: "if training self then 512 \<le> im_w li \<and> 256 \<le> im_h li
              else 1232 \<le> im_w li \<and> 368 \<le> im_h li"
    and target: "target = (if training self then (512, 256) else (1232, 368))"
  shows "\<exists>item. myImageFloder_getitem self rnd index = Inr item \<and>
           image_size (item_left item) = target \<and>
           image_size (item_right item) = target \<and>
           disparity_size (item_disp item) = (if load self then None else Some target)"
proof (cases "training self")
  case False
  from dl have dl': "load self \<or> py_index (disp_L self) index = Inr d" by blast
  show ?thesis
    unfolding getitem_eval [OF False li ri nm dl'] using False target
    by (simp add: item_left_def item_right_def item_disp_def disparity_size_def
          get_transform_size crop_size to_array_div256_size)
next
  case True
  from dl have dl': "load self \<or> py_index (disp_L self) index = Inr d" by blast
  from big True have w: "0 \<le> im_w li - 512" and h: "0 \<le> im_h li - 256" by simp_all
  obtain x1 where x1: "randint (fst rnd) 0 (im_w li - 512) = Inr x1"
      and x1r: "0 \<le> x1" "x1 \<le> im_w li - 512"
    using randint_ok [OF w] by blast
  obtain y1 where y1: "randint (snd rnd) 0 (im_h li - 256) = Inr y1"
      and y1r: "0 \<le> y1" "y1 \<le> im_h li - 256"
    using randint_ok [OF h] by blast
  have sl: "image_size (np_slice (to_array_div256 d) y1 (y1 + 256) x1 (x1 + 512)) = (512, 256)"
    if "image_size d = image_size li"
  proof -
    from that have "im_w (to_array_div256 d) = im_w li" and "im_h (to_array_div256 d) = im_h li"
      by (simp_all add: to_array_div256_def image_size_def)
    then show ?thesis using x1r y1r by (simp add: np_slice_size)
  qed
  show ?thesis
    unfolding getitem_train [OF True li ri nm dl' x1 y1] using True target dl sl
    by (auto simp: item_left_def item_right_def item_disp_def disparity_size_def
          get_transform_size crop_size)
qed

theorem getitem_crop_sizes_witness:
  "(\<exists>item. myImageFloder_getitem kitti_train_data (700, 60) 0 = Inr item \<and>
      image_size (item_left item) = (512, 256) \<and>
      image_size (item_right item) = (512, 256) \<and>
      disparity_size (item_disp item) = Some (512, 256))"
proof -
  have "\<exists>item. myImageFloder_getitem kitti_train_data (700, 60) 0 = Inr item \<and>
      image_size (item_left item) = (512, 256) \<and>
      image_size (item_right item) = (512, 256) \<and>
      disparity_size (item_disp item) = (if load kitti_train_data then None else Some (512, 256))"
    by (rule getitem_crop_sizes [where li = "black_image 1242 375" and ri = "black_image 1242 375"
          and nm = "''000000_10.png''" and d = "flat_disparity 1242 375"])
       (simp_all add: kitti_train_data_def py_index_def black_image_def flat_disparity_def
          image_size_def)
  then show ?thesis by (simp add: kitti_train_data_def)
qed

end
